theory Spec2Isabelle
  imports Main
begin

section \<open>Strings of the program\<close>

text \<open>
  A Python \<open>str\<close> is embedded as a \<open>string\<close>, a list of characters.  The character
  tests below are the ones the source applies: the regular-expression class
  \<open>[a-zA-Z0-9_]\<close> of \<open>sanitize_filename\<close>, given by its code-point ranges, and
  \<open>str.isspace\<close>, which decides what \<open>str.split()\<close> and \<open>str.strip()\<close> treat as
  white space.  HOL's characters are the code points below 256; a character outside
  a class is treated by the source in the same way whatever its code point.
\<close>

definition in_word_class :: "char \<Rightarrow> bool" where
  "in_word_class c =
     (let n = (of_char c :: nat) in
        (97 \<le> n \<and> n \<le> 122) \<or> (65 \<le> n \<and> n \<le> 90) \<or> (48 \<le> n \<and> n \<le> 57) \<or> n = 95)"

text \<open>
  \<open>re.sub(pattern, repl, s)\<close> for a pattern that is one character class: the scan goes
  left to right; where the class matches, the match (one character) is replaced by
  \<open>repl\<close>; where it does not, the character is copied.
\<close>

fun re_sub_class :: "(char \<Rightarrow> bool) \<Rightarrow> string \<Rightarrow> string \<Rightarrow> string" where
  "re_sub_class matches repl [] = []"
| "re_sub_class matches repl (c # cs) =
     (if matches c then repl @ re_sub_class matches repl cs
      else c # re_sub_class matches repl cs)"

text \<open>\<open>sanitize_filename\<close>: \<open>re.sub(r"[^a-zA-Z0-9_]", "_", name)\<close>.\<close>

definition sanitize_filename :: "string \<Rightarrow> string" where
  "sanitize_filename name = re_sub_class (\<lambda>c. \<not> in_word_class c) ''_'' name"

section \<open>The size formatter\<close>

text \<open>\<open>str(n)\<close> for a non-negative integer: its decimal digits.\<close>

definition digit_char :: "nat \<Rightarrow> char" where
  "digit_char n = ''0123456789'' ! n"

fun str_nat :: "nat \<Rightarrow> string" where
  "str_nat n = (if n < 10 then [digit_char n] else str_nat (n div 10) @ [digit_char (n mod 10)])"

declare str_nat.simps [simp del]

text \<open>The number a string of decimal digits denotes.\<close>

definition decimal_value :: "string \<Rightarrow> nat" where
  "decimal_value s = foldl (\<lambda>a c. 10 * a + (of_char c - 48)) 0 s"

text \<open>
  The quotient \<open>n / d\<close> rounded to the nearest integer, ties to the even one: the
  rounding of IEEE 754 arithmetic and of Python's fixed-point formatting.
\<close>

definition round_half_even :: "nat \<Rightarrow> nat \<Rightarrow> nat" where
  "round_half_even n d =
     (let q = n div d; r = n mod d in
        if d < 2 * r \<or> (2 * r = d \<and> odd q) then q + 1 else q)"

fun bit_length :: "nat \<Rightarrow> nat" where
  "bit_length n = (if n = 0 then 0 else Suc (bit_length (n div 2)))"

declare bit_length.simps [simp del]

text \<open>
  \<open>size_bytes / 1024\<close> is Python's true division of two integers: the double nearest
  to the quotient.  The divisors of the source are powers of two, so the double is
  \<open>int_to_double size_bytes\<close> divided by the divisor exactly, where \<open>int_to_double\<close>
  keeps the 53 leading bits of its argument (ties to even); below \<open>2 ^ 53\<close> it changes
  nothing.  A double is kept here as its numerator over the divisor.
\<close>

definition int_to_double :: "nat \<Rightarrow> nat" where
  "int_to_double b = (let e = bit_length b - 53 in round_half_even b (2 ^ e) * 2 ^ e)"

text \<open>
  \<open>f"{x:.2f}"\<close> for the double \<open>x = m / d\<close>: the number of hundredths nearest to \<open>x\<close>
  (Python rounds the exact binary value, ties to even), printed as the integer part, a
  point and two digits.
\<close>

definition hundredths :: "nat \<Rightarrow> nat \<Rightarrow> nat" where
  "hundredths m d = round_half_even (100 * m) d"

definition fixed_2f :: "nat \<Rightarrow> string" where
  "fixed_2f h = str_nat (h div 100) @ ''.'' @ [digit_char (h div 10 mod 10), digit_char (h mod 10)]"

definition format_2f :: "nat \<Rightarrow> nat \<Rightarrow> string" where
  "format_2f m d = fixed_2f (hundredths m d)"

text \<open>
  \<open>get_file_size_human_readable\<close>.  The file system is a map from paths to byte
  lengths: \<open>os.path.exists\<close> asks whether the path is in its domain, \<open>os.path.getsize\<close>
  reads the length.
\<close>

definition get_file_size_human_readable :: "(string \<rightharpoonup> nat) \<Rightarrow> string \<Rightarrow> string" where
  "get_file_size_human_readable fs file_path =
     (case fs file_path of
        Some size_bytes \<Rightarrow>
          if size_bytes < 1024 then str_nat size_bytes @ '' B''
          else if size_bytes < 1024 * 1024
            then format_2f (int_to_double size_bytes) 1024 @ '' KB''
          else format_2f (int_to_double size_bytes) (1024 * 1024) @ '' MB''
      | None \<Rightarrow> ''N/A'')"

section \<open>Configuration\<close>

text \<open>The constants of \<open>config.py\<close> that the crawler reads.\<close>

definition MAX_RESULTS_PER_QUERY :: int where
  "MAX_RESULTS_PER_QUERY = 10"

definition MIN_WORDS_FOR_CONTENT :: int where
  "MIN_WORDS_FOR_CONTENT = 50"

definition OUTPUT_DIR :: string where
  "OUTPUT_DIR = ''output''"

section \<open>String operations of the crawler\<close>

text \<open>
  \<open>str.isspace\<close> on one character: the code points 9 to 13, 28 to 32, 133 and 160 are
  the white space below 256.
\<close>

definition py_isspace :: "char \<Rightarrow> bool" where
  "py_isspace c =
     (let n = (of_char c :: nat) in
        (9 \<le> n \<and> n \<le> 13) \<or> (28 \<le> n \<and> n \<le> 32) \<or> n = 133 \<or> n = 160)"

text \<open>
  \<open>s.split()\<close>: the maximal runs of characters that are not white space, in order.
  The first argument is the word being read.
\<close>

fun split_words :: "string \<Rightarrow> string \<Rightarrow> string list" where
  "split_words w [] = (if w = [] then [] else [w])"
| "split_words w (c # cs) =
     (if py_isspace c then (if w = [] then split_words [] cs else w # split_words [] cs)
      else split_words (w @ [c]) cs)"

definition py_split :: "string \<Rightarrow> string list" where
  "py_split s = split_words [] s"

text \<open>\<open>len(s.split())\<close>, a Python integer.\<close>

definition word_count :: "string \<Rightarrow> int" where
  "word_count s = int (length (py_split s))"

text \<open>\<open>s.strip()\<close>: white space removed at both ends.\<close>

definition py_strip :: "string \<Rightarrow> string" where
  "py_strip s = rev (dropWhile py_isspace (rev (dropWhile py_isspace s)))"

text \<open>\<open>s.replace(old, new)\<close> for a one-character \<open>old\<close>.\<close>

fun str_replace :: "char \<Rightarrow> string \<Rightarrow> string \<Rightarrow> string" where
  "str_replace old new [] = []"
| "str_replace old new (c # cs) =
     (if c = old then new @ str_replace old new cs else c # str_replace old new cs)"

text \<open>\<open>sep.join(xs)\<close>.\<close>

fun str_join :: "string \<Rightarrow> string list \<Rightarrow> string" where
  "str_join sep [] = []"
| "str_join sep [x] = x"
| "str_join sep (x # y # ys) = x @ sep @ str_join sep (y # ys)"

definition newline :: char where
  "newline = CHR 0x0A"

section \<open>Data model\<close>

text \<open>
  A search result is the dictionary the search library returns: \<open>href\<close> holds the URL,
  \<open>title\<close> may be missing (\<open>result.get("title", "Untitled")\<close>).
\<close>

record search_result =
  href :: string
  result_title :: "string option"

text \<open>
  The dictionary appended to \<open>query_data\<close>.  \<open>entities\<close> maps a label to
  \<open>list(set(v))\<close>; the order of that list is not fixed by the source, so the value is
  kept as the set.  The field \<open>keywords\<close> is named \<open>keywords_list\<close> here.
\<close>

record scraped_record =
  topic :: string
  title :: string
  url :: string
  domain :: string
  snippet :: string
  content :: string
  scraped_at :: string
  entities :: "(string \<times> string set) list"
  keywords_list :: "string list"

text \<open>One value of \<open>domain_stats\<close>: \<open>{"success": 0, "fail": 0}\<close> when created.\<close>

record domain_stat =
  success :: int
  fail :: int

text \<open>One row of the domain summary table.\<close>

record summary_row =
  row_domain :: string
  successes :: int
  failures :: int

text \<open>Exceptions: \<open>IOError\<close> is the class the file handlers catch.\<close>

datatype exn = Exception string | IOError string

text \<open>What a file holds after a write of the crawler.\<close>

datatype file_content =
    CsvRecords "scraped_record list"
  | JsonRecords "scraped_record list"
  | TextFile string
  | CsvSummary "summary_row list"

text \<open>A call that leaves the program: a search, the scraping of a URL, a file write.\<close>

datatype call = SearchCall string int | ScrapeCall string | WriteCall string

text \<open>
  The libraries and the environment the crawler calls, as functions.  \<open>ddgs_text\<close> is
  the search (it may raise), \<open>fetch_url\<close> and \<open>extract_text\<close> are trafilatura's
  \<open>fetch_url\<close> and \<open>extract\<close> with the options of the source (a value or \<open>None\<close>), \<open>p_texts\<close> gives \<open>p.get_text()\<close> for each element of
  \<open>BeautifulSoup(doc, "html.parser").find_all("p")\<close>, \<open>nlp_ents\<close> gives the pairs
  \<open>(ent.label_, ent.text)\<close> of \<open>nlp(text).ents\<close> (spaCy raises on a text it refuses),
  \<open>netloc\<close> is \<open>urlparse(url).netloc\<close>, \<open>utcnow\<close> is the clock read as an ISO string at
  its n-th reading, and \<open>write_fails\<close> tells whether writing a path raises \<open>IOError\<close>.
\<close>

record collaborators =
  ddgs_text :: "string \<Rightarrow> int \<Rightarrow> exn + search_result list"
  fetch_url :: "string \<Rightarrow> string option"
  extract_text :: "string \<Rightarrow> string option"
  p_texts :: "string \<Rightarrow> string list"
  nlp_ents :: "string \<Rightarrow> exn + (string \<times> string) list"
  netloc :: "string \<Rightarrow> string"
  utcnow :: "nat \<Rightarrow> string"
  write_fails :: "string \<Rightarrow> bool"

text \<open>
  The state of a run of \<open>main\<close>: the two accumulators \<open>all_data\<close> and \<open>domain_stats\<close>
  (a dictionary in insertion order, kept as a list of key and value), the files
  written, the number of clock readings made, and the calls made so far.
\<close>

record run_state =
  all_data :: "scraped_record list"
  domain_stats :: "(string \<times> domain_stat) list"
  files :: "string \<rightharpoonup> file_content"
  clock :: nat
  calls :: "call list"

section \<open>The entity annotator\<close>

text \<open>The keys of the dictionary literal of \<open>extract_entities\<close>, in its order.\<close>

definition entity_labels :: "string list" where
  "entity_labels =
     [''PERSON'', ''ORG'', ''GPE'', ''LOC'', ''PRODUCT'', ''EVENT'', ''DATE'', ''NORP'',
      ''FAC'', ''LAW'', ''LANGUAGE'', ''MONEY'', ''ORDINAL'', ''PERCENT'', ''QUANTITY'',
      ''CARDINAL'', ''WORK_OF_ART'', ''TIME'']"

definition texts_of_label :: "string \<Rightarrow> (string \<times> string) list \<Rightarrow> string list" where
  "texts_of_label k ents = map snd (filter (\<lambda>e. fst e = k) ents)"

definition extract_entities ::
  "collaborators \<Rightarrow> string \<Rightarrow> exn + (string \<times> string set) list" where
  "extract_entities env text =
     (case nlp_ents env text of
        Inl e \<Rightarrow> Inl e
      | Inr ents \<Rightarrow>
          Inr (map (\<lambda>k. (k, set (texts_of_label k ents)))
                 (filter (\<lambda>k. texts_of_label k ents \<noteq> []) entity_labels)))"

section \<open>The content extractor\<close>

text \<open>\<open>text and len(text.split()) >= min_words\<close>, for a \<open>text\<close> that may be \<open>None\<close>.\<close>

definition long_enough :: "int \<Rightarrow> string option \<Rightarrow> bool" where
  "long_enough min_words text =
     (case text of None \<Rightarrow> False | Some t \<Rightarrow> t \<noteq> [] \<and> min_words \<le> word_count t)"

text \<open>The paragraph scan: the non-empty paragraph texts joined by newlines.\<close>

definition fallback_text :: "collaborators \<Rightarrow> string \<Rightarrow> string" where
  "fallback_text env downloaded =
     str_join [newline] (filter (\<lambda>t. t \<noteq> []) (p_texts env downloaded))"

definition scrape_content :: "collaborators \<Rightarrow> string \<Rightarrow> int \<Rightarrow> string option" where
  "scrape_content env u min_words =
     (case fetch_url env u of
        None \<Rightarrow> None
      | Some downloaded \<Rightarrow>
          if downloaded = [] then None
          else if long_enough min_words (extract_text env downloaded) then extract_text env downloaded
          else if long_enough min_words (Some (fallback_text env downloaded))
            then Some (fallback_text env downloaded)
          else None)"

section \<open>The crawl\<close>

text \<open>
  \<open>domain_stats[d][field] += 1\<close> on the \<open>defaultdict\<close>: the entry of \<open>d\<close> is updated in
  place; a missing key is first inserted, after the keys already there, with both
  counters zero.
\<close>

fun bump ::
  "(domain_stat \<Rightarrow> domain_stat) \<Rightarrow> string \<Rightarrow> (string \<times> domain_stat) list
     \<Rightarrow> (string \<times> domain_stat) list" where
  "bump f d [] = [(d, f \<lparr>success = 0, fail = 0\<rparr>)]"
| "bump f d ((k, v) # ds) = (if k = d then (k, f v) # ds else (k, v) # bump f d ds)"

definition add_success :: "string \<Rightarrow> (string \<times> domain_stat) list \<Rightarrow> (string \<times> domain_stat) list" where
  "add_success d ds = bump (\<lambda>v. v\<lparr>success := success v + 1\<rparr>) d ds"

definition add_fail :: "string \<Rightarrow> (string \<times> domain_stat) list \<Rightarrow> (string \<times> domain_stat) list" where
  "add_fail d ds = bump (\<lambda>v. v\<lparr>fail := fail v + 1\<rparr>) d ds"

text \<open>\<open>content[:300].strip().replace("\n", " ") + "..."\<close>.\<close>

definition make_snippet :: "string \<Rightarrow> string" where
  "make_snippet c = str_replace newline '' '' (py_strip (take 300 c)) @ ''...''"

text \<open>
  One write of a file.  The call is recorded; the file holds the data unless the write
  raises \<open>IOError\<close>.  The result tells whether the write went through.
\<close>

definition write_file ::
  "collaborators \<Rightarrow> string \<Rightarrow> file_content \<Rightarrow> run_state \<Rightarrow> bool \<times> run_state" where
  "write_file env path data st =
     (let st' = st\<lparr>calls := calls st @ [WriteCall path]\<rparr> in
        if write_fails env path then (False, st')
        else (True, st'\<lparr>files := (files st')(path \<mapsto> data)\<rparr>))"

text \<open>
  The body of the loop over the search results of one query.  The loop state is
  \<open>query_data\<close>, \<open>failed_urls\<close> and the state of the run.  An exception of the \<open>try\<close>
  block (here: of the entity annotation) is handled as the source's \<open>except\<close> does.
  The locals \<open>url\<close>, \<open>title\<close>, \<open>domain\<close> and \<open>content\<close> of the source are \<open>u\<close>, \<open>t\<close>,
  \<open>d\<close> and \<open>c\<close> here, their names being those of the record fields.  This is the body
  for a URL that \<open>urlparse\<close> accepts; \<open>urlparse\<close> stands outside the \<open>try\<close> block, and
  \<open>process_result_or_raise\<close> below adds its exception.
\<close>

fun process_result ::
  "collaborators \<Rightarrow> string set \<Rightarrow> string \<Rightarrow> search_result
     \<Rightarrow> scraped_record list \<times> string list \<times> run_state
     \<Rightarrow> scraped_record list \<times> string list \<times> run_state" where
  "process_result env blacklist query result (query_data, failed_urls, st) =
     (let u = href result;
          t = (case result_title result of None \<Rightarrow> ''Untitled'' | Some x \<Rightarrow> x);
          d = netloc env u
      in
        if d \<in> blacklist
        then (query_data, failed_urls @ [u],
              st\<lparr>domain_stats := add_fail d (domain_stats st)\<rparr>)
        else
          (let st1 = st\<lparr>calls := calls st @ [ScrapeCall u]\<rparr> in
             case scrape_content env u MIN_WORDS_FOR_CONTENT of
               None \<Rightarrow>
                 (query_data, failed_urls @ [u],
                  st1\<lparr>domain_stats := add_fail d (domain_stats st1)\<rparr>)
             | Some c \<Rightarrow>
                 if c = []
                 then (query_data, failed_urls @ [u],
                       st1\<lparr>domain_stats := add_fail d (domain_stats st1)\<rparr>)
                 else
                   (let st2 = st1\<lparr>clock := Suc (clock st1)\<rparr> in
                      case extract_entities env c of
                        Inl e \<Rightarrow>
                          (query_data, failed_urls @ [u],
                           st2\<lparr>domain_stats := add_fail d (domain_stats st2)\<rparr>)
                      | Inr ents \<Rightarrow>
                          (query_data @
                             [\<lparr>topic = query, title = t, url = u, domain = d,
                               snippet = make_snippet c, content = c,
                               scraped_at = utcnow env (clock st1), entities = ents,
                               keywords_list = []\<rparr>],
                           failed_urls,
                           st2\<lparr>domain_stats := add_success d (domain_stats st2)\<rparr>))))"

fun scrape_results ::
  "collaborators \<Rightarrow> string set \<Rightarrow> string \<Rightarrow> search_result list
     \<Rightarrow> scraped_record list \<times> string list \<times> run_state
     \<Rightarrow> scraped_record list \<times> string list \<times> run_state" where
  "scrape_results env blacklist query [] acc = acc"
| "scrape_results env blacklist query (result # rest) acc =
     scrape_results env blacklist query rest (process_result env blacklist query result acc)"

text \<open>The failure log: each URL followed by a newline.\<close>

definition failed_log :: "string list \<Rightarrow> string" where
  "failed_log failed_urls = concat (map (\<lambda>u. u @ [newline]) failed_urls)"

text \<open>
  The body of the loop over the queries: the search (an exception or an empty result
  ends the iteration), the loop over the results, the two files of the query, and
  \<open>all_data.extend(query_data)\<close>.
\<close>

definition process_query ::
  "collaborators \<Rightarrow> string set \<Rightarrow> int \<Rightarrow> run_state \<Rightarrow> string \<Rightarrow> run_state" where
  "process_query env blacklist max_results st query =
     (let st1 = st\<lparr>calls := calls st @ [SearchCall query max_results]\<rparr> in
        case ddgs_text env query max_results of
          Inl e \<Rightarrow> st1
        | Inr search_results \<Rightarrow>
            if search_results = [] then st1
            else
              (let safe_name = sanitize_filename query;
                   output_path = OUTPUT_DIR @ ''/'' @ safe_name @ ''.csv'';
                   failed_log_path = OUTPUT_DIR @ ''/'' @ safe_name @ ''_failed.txt'';
                   (query_data, failed_urls, st2) =
                      scrape_results env blacklist query search_results ([], [], st1);
                   st3 = (if query_data \<noteq> []
                          then snd (write_file env output_path (CsvRecords query_data) st2)
                          else st2);
                   st4 = (if failed_urls \<noteq> []
                          then snd (write_file env failed_log_path
                                      (TextFile (failed_log failed_urls)) st3)
                          else st3)
               in st4\<lparr>all_data := all_data st4 @ query_data\<rparr>))"

definition run_queries ::
  "collaborators \<Rightarrow> string set \<Rightarrow> int \<Rightarrow> string list \<Rightarrow> run_state \<Rightarrow> run_state" where
  "run_queries env blacklist max_results queries st =
     foldl (process_query env blacklist max_results) st queries"

text \<open>The rows of the summary: the items sorted by \<open>-success\<close> (Python's sort is stable).\<close>

definition summary_row_of :: "string \<times> domain_stat \<Rightarrow> summary_row" where
  "summary_row_of x =
     \<lparr>row_domain = fst x, successes = success (snd x), failures = fail (snd x)\<rparr>"

definition domain_summary :: "(string \<times> domain_stat) list \<Rightarrow> summary_row list" where
  "domain_summary ds = map summary_row_of (sort_key (\<lambda>x. - success (snd x)) ds)"

definition merged_csv :: string where
  "merged_csv = OUTPUT_DIR @ ''/_all_queries_merged.csv''"

definition merged_json :: string where
  "merged_json = OUTPUT_DIR @ ''/_all_queries_merged.json''"

definition domain_log :: string where
  "domain_log = OUTPUT_DIR @ ''/_domain_stats_summary.csv''"

text \<open>The writes after the loop: the two merged files in one \<open>try\<close>, then the summary.\<close>

definition save_outputs :: "collaborators \<Rightarrow> run_state \<Rightarrow> run_state" where
  "save_outputs env st =
     (let st1 =
        (if all_data st \<noteq> []
         then (case write_file env merged_csv (CsvRecords (all_data st)) st of
                 (True, s) \<Rightarrow> snd (write_file env merged_json (JsonRecords (all_data st)) s)
               | (False, s) \<Rightarrow> s)
         else st)
      in snd (write_file env domain_log (CsvSummary (domain_summary (domain_stats st1))) st1))"

text \<open>
  \<open>main\<close>, from the two accumulators on, for a run in which \<open>args\<close> is bound and
  \<open>urlparse\<close> accepts every URL.  The values read from \<open>args\<close> are parameters: the
  blacklist already loaded, \<open>args.queries\<close> and \<open>args.max_results\<close>.  \<open>fs\<close> holds the
  files present at the start.  Logging is left out of the embedding; the two logging
  calls of lines 271 and 301 are string literals without their closing quote in the
  file as given.  \<open>main_program\<close> below is the run with its two exits.
\<close>

definition initial_state :: "(string \<rightharpoonup> file_content) \<Rightarrow> run_state" where
  "initial_state fs = \<lparr>all_data = [], domain_stats = [], files = fs, clock = 0, calls = []\<rparr>"

definition main ::
  "collaborators \<Rightarrow> string set \<Rightarrow> string list \<Rightarrow> int \<Rightarrow> (string \<rightharpoonup> file_content) \<Rightarrow> run_state" where
  "main env blacklist queries max_results fs =
     save_outputs env (run_queries env blacklist max_results queries (initial_state fs))"

subsection \<open>The exits of a run\<close>

text \<open>
  \<open>domain = urlparse(url).netloc\<close> is the first statement of the loop body that can
  raise, and it stands before the \<open>try\<close> block: \<open>urlparse\<close> raises \<open>ValueError\<close> on a URL
  it rejects (an unbalanced bracket in the host, for one).  \<open>malformed\<close> tells which
  URLs it rejects; on the others its host is \<open>netloc\<close>.  No handler of \<open>main\<close> encloses
  the statement, so the exception ends the loop over the results, the loop over the
  queries and \<open>main\<close>.  A run that ends so is \<open>Inl\<close> of the exception and the state
  reached.
\<close>

definition process_result_or_raise ::
  "(string \<Rightarrow> bool) \<Rightarrow> collaborators \<Rightarrow> string set \<Rightarrow> string \<Rightarrow> search_result
     \<Rightarrow> scraped_record list \<times> string list \<times> run_state
     \<Rightarrow> (exn \<times> run_state) + (scraped_record list \<times> string list \<times> run_state)" where
  "process_result_or_raise malformed env blacklist query result acc =
     (if malformed (href result) then Inl (Exception ''ValueError'', snd (snd acc))
      else Inr (process_result env blacklist query result acc))"

fun scrape_results_or_raise ::
  "(string \<Rightarrow> bool) \<Rightarrow> collaborators \<Rightarrow> string set \<Rightarrow> string \<Rightarrow> search_result list
     \<Rightarrow> scraped_record list \<times> string list \<times> run_state
     \<Rightarrow> (exn \<times> run_state) + (scraped_record list \<times> string list \<times> run_state)" where
  "scrape_results_or_raise malformed env blacklist query [] acc = Inr acc"
| "scrape_results_or_raise malformed env blacklist query (result # rest) acc =
     (case process_result_or_raise malformed env blacklist query result acc of
        Inl x \<Rightarrow> Inl x
      | Inr acc' \<Rightarrow> scrape_results_or_raise malformed env blacklist query rest acc')"

definition process_query_or_raise ::
  "(string \<Rightarrow> bool) \<Rightarrow> collaborators \<Rightarrow> string set \<Rightarrow> int \<Rightarrow> run_state \<Rightarrow> string
     \<Rightarrow> (exn \<times> run_state) + run_state" where
  "process_query_or_raise malformed env blacklist max_results st query =
     (let st1 = st\<lparr>calls := calls st @ [SearchCall query max_results]\<rparr> in
        case ddgs_text env query max_results of
          Inl e \<Rightarrow> Inr st1
        | Inr search_results \<Rightarrow>
            if search_results = [] then Inr st1
            else
              (case scrape_results_or_raise malformed env blacklist query search_results
                      ([], [], st1) of
                 Inl x \<Rightarrow> Inl x
               | Inr (query_data, failed_urls, st2) \<Rightarrow>
                   (let safe_name = sanitize_filename query;
                        output_path = OUTPUT_DIR @ ''/'' @ safe_name @ ''.csv'';
                        failed_log_path = OUTPUT_DIR @ ''/'' @ safe_name @ ''_failed.txt'';
                        st3 = (if query_data \<noteq> []
                               then snd (write_file env output_path (CsvRecords query_data) st2)
                               else st2);
                        st4 = (if failed_urls \<noteq> []
                               then snd (write_file env failed_log_path
                                           (TextFile (failed_log failed_urls)) st3)
                               else st3)
                    in Inr (st4\<lparr>all_data := all_data st4 @ query_data\<rparr>))))"

fun run_queries_or_raise ::
  "(string \<Rightarrow> bool) \<Rightarrow> collaborators \<Rightarrow> string set \<Rightarrow> int \<Rightarrow> string list \<Rightarrow> run_state
     \<Rightarrow> (exn \<times> run_state) + run_state" where
  "run_queries_or_raise malformed env blacklist max_results [] st = Inr st"
| "run_queries_or_raise malformed env blacklist max_results (query # rest) st =
     (case process_query_or_raise malformed env blacklist max_results st query of
        Inl x \<Rightarrow> Inl x
      | Inr st' \<Rightarrow> run_queries_or_raise malformed env blacklist max_results rest st')"

text \<open>
  The values \<open>main\<close> reads from \<open>args\<close>.  \<open>args\<close> is a global name that \<open>main\<close> never
  assigns (the parser is built, \<open>parse_args\<close> is not called): it has a value only when
  the module was given one, and the first read of it, at line 187, raises \<open>NameError\<close>
  otherwise.
\<close>

record arguments =
  arg_queries :: "string list"
  arg_max_results :: int

definition main_program ::
  "(string \<Rightarrow> bool) \<Rightarrow> collaborators \<Rightarrow> arguments option \<Rightarrow> string set
     \<Rightarrow> (string \<rightharpoonup> file_content) \<Rightarrow> (exn \<times> run_state) + run_state" where
  "main_program malformed env args blacklist fs =
     (case args of
        None \<Rightarrow> Inl (Exception ''NameError'', initial_state fs)
      | Some a \<Rightarrow>
          (case run_queries_or_raise malformed env blacklist (arg_max_results a)
                  (arg_queries a) (initial_state fs) of
             Inl x \<Rightarrow> Inl x
           | Inr st \<Rightarrow> Inr (save_outputs env st)))"

text \<open>
  The URLs a run attempts: the results of every query whose search returns, in order.
  The counters of a domain refer to them.
\<close>

definition query_urls :: "collaborators \<Rightarrow> int \<Rightarrow> string \<Rightarrow> string list" where
  "query_urls env max_results query =
     (case ddgs_text env query max_results of Inl e \<Rightarrow> [] | Inr rs \<Rightarrow> map href rs)"

definition attempted_urls :: "collaborators \<Rightarrow> int \<Rightarrow> string list \<Rightarrow> string list" where
  "attempted_urls env max_results queries = concat (map (query_urls env max_results) queries)"

text \<open>The counters of a domain as read from the dictionary; a missing key counts zero.\<close>

definition success_count :: "(string \<times> domain_stat) list \<Rightarrow> string \<Rightarrow> int" where
  "success_count ds d = (case map_of ds d of None \<Rightarrow> 0 | Some v \<Rightarrow> success v)"

definition fail_count :: "(string \<times> domain_stat) list \<Rightarrow> string \<Rightarrow> int" where
  "fail_count ds d = (case map_of ds d of None \<Rightarrow> 0 | Some v \<Rightarrow> fail v)"

text \<open>The elements of a list in the order of their first occurrence.\<close>

fun first_seen :: "'a list \<Rightarrow> 'a list" where
  "first_seen [] = []"
| "first_seen (x # xs) = x # filter (\<lambda>y. y \<noteq> x) (first_seen xs)"

text \<open>The searches among the calls of a run.\<close>

fun is_search :: "call \<Rightarrow> bool" where
  "is_search (SearchCall q n) = True"
| "is_search (ScrapeCall u) = False"
| "is_search (WriteCall p) = False"

text \<open>The snippet of a record is the expression of the source applied to its content.\<close>

definition snippet_ok :: "scraped_record \<Rightarrow> bool" where
  "snippet_ok r \<longleftrightarrow>
     snippet r = str_replace newline '' '' (py_strip (take 300 (content r))) @ ''...''"

section \<open>Example collaborators\<close>

text \<open>A page that is fetched but holds neither extractable text nor a paragraph.\<close>

definition page_without_text :: collaborators where
  "page_without_text =
     \<lparr>ddgs_text = (\<lambda>q n. Inr []), fetch_url = (\<lambda>u. Some ''<html></html>''),
      extract_text = (\<lambda>d. None), p_texts = (\<lambda>d. []), nlp_ents = (\<lambda>t. Inr []),
      netloc = (\<lambda>u. u), utcnow = (\<lambda>n. []), write_fails = (\<lambda>p. False)\<rparr>"

text \<open>A text of fifty words; it ends with a space.\<close>

definition fifty_words :: string where
  "fifty_words = concat (replicate 50 ''ab '')"

text \<open>
  A site whose pages yield \<open>fifty_words\<close>.  The search for \<open>bad\<close> raises; every other
  search returns one result.
\<close>

definition article_site :: collaborators where
  "article_site =
     \<lparr>ddgs_text = (\<lambda>q n. if q = ''bad'' then Inl (Exception ''search failed'')
                          else Inr [\<lparr>href = ''http://a.example/1'', result_title = Some ''A''\<rparr>]),
      fetch_url = (\<lambda>u. Some ''<p>ab</p>''),
      extract_text = (\<lambda>d. Some fifty_words),
      p_texts = (\<lambda>d. [''ab'']),
      nlp_ents = (\<lambda>t. Inr [(''ORG'', ''ab'')]),
      netloc = (\<lambda>u. ''a.example''),
      utcnow = (\<lambda>n. ''2024-01-01T00:00:00''),
      write_fails = (\<lambda>p. False)\<rparr>"

text \<open>The same site when the entity annotation raises.\<close>

definition annotator_down :: collaborators where
  "annotator_down = article_site\<lparr>nlp_ents := (\<lambda>t. Inl (Exception ''text too long''))\<rparr>"


text \<open>
  A search with two results on two hosts: the first page cannot be fetched, the second
  yields \<open>fifty_words\<close>.
\<close>

definition two_sites :: collaborators where
  "two_sites =
     \<lparr>ddgs_text = (\<lambda>q n. Inr [\<lparr>href = ''http://a.example/1'', result_title = Some ''A''\<rparr>,
                               \<lparr>href = ''http://b.example/2'', result_title = None\<rparr>]),
      fetch_url = (\<lambda>u. if u = ''http://b.example/2'' then Some ''<p>ab</p>'' else None),
      extract_text = (\<lambda>d. Some fifty_words),
      p_texts = (\<lambda>d. [''ab'']),
      nlp_ents = (\<lambda>t. Inr [(''ORG'', ''ab'')]),
      netloc = (\<lambda>u. if u = ''http://a.example/1'' then ''a.example'' else ''b.example''),
      utcnow = (\<lambda>n. ''2024-01-01T00:00:00''),
      write_fails = (\<lambda>p. False)\<rparr>"


definition unbalanced_bracket :: "string \<Rightarrow> bool" where
  "unbalanced_bracket u = (u = ''http://[::1/x'')"

text \<open>The same site when its search returns a URL with an open bracket in the host.\<close>

definition broken_link :: collaborators where
  "broken_link =
     article_site\<lparr>ddgs_text := (\<lambda>q n. Inr [\<lparr>href = ''http://[::1/x'', result_title = None\<rparr>])\<rparr>"

text \<open>The search result of \<open>article_site\<close>.\<close>

definition first_result :: search_result where
  "first_result = \<lparr>href = ''http://a.example/1'', result_title = Some ''A''\<rparr>"

section \<open>The filename sanitizer\<close>

lemma in_word_class_underscore: "in_word_class CHR ''_''"
  by (simp add: in_word_class_def)

lemma sanitize_filename_Nil: "sanitize_filename [] = []"
  by (simp add: sanitize_filename_def)

lemma sanitize_filename_Cons:
  "sanitize_filename (c # cs) =
     (if in_word_class c then c else CHR ''_'') # sanitize_filename cs"
  by (simp add: sanitize_filename_def)

lemma sanitize_filename_map:
  "sanitize_filename s = map (\<lambda>c. if in_word_class c then c else CHR ''_'') s"
  by (induction s) (simp_all add: sanitize_filename_Nil sanitize_filename_Cons)

lemma sanitize_filename_class: "list_all in_word_class (sanitize_filename s)"
  by (induction s)
     (simp_all add: sanitize_filename_Nil sanitize_filename_Cons in_word_class_underscore)

lemma sanitize_filename_fixed:
  "list_all in_word_class s \<Longrightarrow> sanitize_filename s = s"
  by (induction s) (simp_all add: sanitize_filename_Nil sanitize_filename_Cons)

text \<open>
  Claim C5.  For every string \<open>s\<close>, \<open>sanitize_filename s\<close> consists of characters of
  \<open>[A-Za-z0-9_]\<close> only, has the length of \<open>s\<close>, and is \<open>s\<close> with each character outside
  the class replaced by one underscore, position by position; three adjacent
  disallowed characters give three underscores.  The function is total and
  deterministic, being a HOL function.
\<close>

theorem sanitize_filename_one_for_one:
  "list_all in_word_class (sanitize_filename s)
   \<and> length (sanitize_filename s) = length s
   \<and> sanitize_filename s = map (\<lambda>c. if in_word_class c then c else CHR ''_'') s
   \<and> sanitize_filename ''a!@#b'' = ''a___b''"
proof -
  have "length (sanitize_filename s) = length s"
    by (simp add: sanitize_filename_map)
  moreover have "sanitize_filename ''a!@#b'' = ''a___b''"
    by (simp add: sanitize_filename_Nil sanitize_filename_Cons in_word_class_def)
  ultimately show ?thesis
    using sanitize_filename_class [of s] sanitize_filename_map [of s] by simp
qed

text \<open>
  Claim C6.  The test \<open>test_sanitize_filename\<close> expects
  \<open>sanitize_filename("file with!@#$%^&*()special chars")\<close> to be
  \<open>"file_with_special_chars"\<close>.  The function returns one underscore for each of the
  ten adjacent punctuation characters, so the result has ten underscores between
  \<open>with\<close> and \<open>special\<close> and differs from the expected string.
\<close>

theorem sanitize_filename_special_chars:
  "sanitize_filename ''file with!@#$%^&*()special chars''
     = ''file_with__________special_chars''
   \<and> sanitize_filename ''file with!@#$%^&*()special chars'' \<noteq> ''file_with_special_chars''"
  by (simp add: sanitize_filename_Nil sanitize_filename_Cons in_word_class_def)

text \<open>
  Claim C10.  \<open>sanitize_filename\<close> is idempotent: its output lies in the allowed
  class, which a second application leaves unchanged.
\<close>

theorem sanitize_filename_idempotent:
  "sanitize_filename (sanitize_filename s) = sanitize_filename s"
  by (rule sanitize_filename_fixed) (rule sanitize_filename_class)

section \<open>The size formatter: results\<close>

lemma bit_length_le: "n < 2 ^ k \<Longrightarrow> bit_length n \<le> k"
proof (induction n arbitrary: k rule: bit_length.induct)
  case (1 n)
  show ?case
  proof (cases "n = 0")
    case True
    then show ?thesis by (simp add: bit_length.simps)
  next
    case False
    then obtain j where k: "k = Suc j" using 1(2) by (cases k) auto
    have "n div 2 < 2 ^ j" using 1(2) k by auto
    then have "bit_length (n div 2) \<le> j" using 1(1) False by blast
    then show ?thesis using False k by (simp add: bit_length.simps[of n])
  qed
qed

lemma round_half_even_one: "round_half_even n (Suc 0) = n"
  by (simp add: round_half_even_def)

lemma int_to_double_small: "b < 2 ^ 53 \<Longrightarrow> int_to_double b = b"
  using bit_length_le[of b 53] by (simp add: int_to_double_def round_half_even_one)

lemma round_half_even_near:
  assumes "0 < d"
  shows "2 * (round_half_even n d * d) \<le> 2 * n + d \<and> 2 * n \<le> 2 * (round_half_even n d * d) + d"
proof -
  define q where "q = n div d"
  define r where "r = n mod d"
  have n: "n = q * d + r" by (simp add: q_def r_def)
  have r: "r < d" using assms by (simp add: r_def)
  show ?thesis
  proof (cases "d < 2 * r \<or> (2 * r = d \<and> odd q)")
    case True
    then have "round_half_even n d = q + 1"
      by (simp add: round_half_even_def q_def r_def Let_def)
    then show ?thesis using n r True by (auto simp: algebra_simps)
  next
    case False
    then have "round_half_even n d = q"
      by (simp add: round_half_even_def q_def r_def Let_def)
    then show ?thesis using n r False by (auto simp: algebra_simps)
  qed
qed

lemma of_char_digit_char: "k < 10 \<Longrightarrow> of_char (digit_char k) = 48 + k"
proof -
  assume "k < 10"
  then have "k \<in> {0, 1, 2, 3, 4, 5, 6, 7, 8, 9}" by auto
  then show ?thesis by (auto simp: digit_char_def)
qed

lemma decimal_value_snoc: "decimal_value (s @ [c]) = 10 * decimal_value s + (of_char c - 48)"
  by (simp add: decimal_value_def)

lemma str_nat_decimal: "decimal_value (str_nat n) = n"
proof (induction n rule: str_nat.induct)
  case (1 n)
  show ?case
  proof (cases "n < 10")
    case True
    then show ?thesis
      by (simp add: str_nat.simps [of n] decimal_value_def of_char_digit_char)
  next
    case False
    with 1 have "decimal_value (str_nat (n div 10)) = n div 10" by simp
    with False show ?thesis
      by (simp add: str_nat.simps [of n] decimal_value_snoc of_char_digit_char)
  qed
qed

lemmas size_eval = get_file_size_human_readable_def format_2f_def fixed_2f_def hundredths_def
  int_to_double_def round_half_even_def str_nat.simps bit_length.simps digit_char_def Let_def

lemma size_examples:
  "get_file_size_human_readable [p \<mapsto> 0] p = ''0 B''"
  "get_file_size_human_readable [p \<mapsto> 500] p = ''500 B''"
  "get_file_size_human_readable [p \<mapsto> 1500] p = ''1.46 KB''"
  "get_file_size_human_readable [p \<mapsto> 2 * 1024 * 1024] p = ''2.00 MB''"
  "get_file_size_human_readable Map.empty p = ''N/A''"
  by (simp_all add: size_eval)

text \<open>
  Claim C7.  \<open>get_file_size_human_readable\<close> returns \<open>"N/A"\<close> for a path that does not
  exist; for a file of \<open>b\<close> bytes it returns \<open>b\<close> in decimal with \<open>" B"\<close> when
  \<open>b < 1024\<close>, the quotient \<open>b / 1024\<close> to two decimal places with \<open>" KB"\<close> when
  \<open>1024 \<le> b < 1024\<^sup>2\<close>, and \<open>b / 1024\<^sup>2\<close> to two decimal places with \<open>" MB"\<close> from
  \<open>1024\<^sup>2\<close> on.  The decimal digits printed for \<open>b\<close> denote \<open>b\<close>.  The two decimal
  places are the hundredths nearest to the quotient (within half a hundredth of it);
  the quotient is exact for every \<open>b\<close> below \<open>2\<^sup>5\<^sup>3\<close>.
  Files of 0, 500, 1500 and 2 * 1024 * 1024 bytes give \<open>"0 B"\<close>, \<open>"500 B"\<close>,
  \<open>"1.46 KB"\<close> and \<open>"2.00 MB"\<close>.
\<close>

theorem get_file_size_human_readable_cases:
  "(fs p = None \<longrightarrow> get_file_size_human_readable fs p = ''N/A'')
   \<and> (fs p = Some b \<and> b < 1024 \<longrightarrow> get_file_size_human_readable fs p = str_nat b @ '' B'')
   \<and> (fs p = Some b \<and> 1024 \<le> b \<and> b < 1024 * 1024 \<longrightarrow>
        get_file_size_human_readable fs p = fixed_2f (hundredths b 1024) @ '' KB'')
   \<and> (fs p = Some b \<and> 1024 * 1024 \<le> b \<longrightarrow>
        get_file_size_human_readable fs p
          = fixed_2f (hundredths (int_to_double b) (1024 * 1024)) @ '' MB'')
   \<and> decimal_value (str_nat b) = b
   \<and> (b < 2 ^ 53 \<longrightarrow> int_to_double b = b)
   \<and> (0 < d \<longrightarrow> 2 * (hundredths m d * d) \<le> 2 * (100 * m) + d
                \<and> 2 * (100 * m) \<le> 2 * (hundredths m d * d) + d)
   \<and> get_file_size_human_readable [p \<mapsto> 0] p = ''0 B''
   \<and> get_file_size_human_readable [p \<mapsto> 500] p = ''500 B''
   \<and> get_file_size_human_readable [p \<mapsto> 1500] p = ''1.46 KB''
   \<and> get_file_size_human_readable [p \<mapsto> 2 * 1024 * 1024] p = ''2.00 MB''
   \<and> get_file_size_human_readable Map.empty p = ''N/A''"
proof -
  have kb: "fs p = Some b \<and> 1024 \<le> b \<and> b < 1024 * 1024 \<longrightarrow>
        get_file_size_human_readable fs p = fixed_2f (hundredths b 1024) @ '' KB''"
    using int_to_double_small[of b]
    by (auto simp: get_file_size_human_readable_def format_2f_def)
  have mb: "fs p = Some b \<and> 1024 * 1024 \<le> b \<longrightarrow>
        get_file_size_human_readable fs p
          = fixed_2f (hundredths (int_to_double b) (1024 * 1024)) @ '' MB''"
    by (auto simp: get_file_size_human_readable_def format_2f_def)
  have near: "0 < d \<longrightarrow> 2 * (hundredths m d * d) \<le> 2 * (100 * m) + d
                \<and> 2 * (100 * m) \<le> 2 * (hundredths m d * d) + d"
    using round_half_even_near[of d "100 * m"] by (simp add: hundredths_def)
  have small: "(fs p = None \<longrightarrow> get_file_size_human_readable fs p = ''N/A'')
   \<and> (fs p = Some b \<and> b < 1024 \<longrightarrow> get_file_size_human_readable fs p = str_nat b @ '' B'')"
    by (simp add: get_file_size_human_readable_def)
  show ?thesis
    using kb mb near small int_to_double_small[of b] size_examples[of p] str_nat_decimal[of b]
    by blast
qed

theorem get_file_size_human_readable_witness:
  "[''out.csv'' \<mapsto> (1500::nat)] ''out.csv'' = Some 1500 \<and> (1024::nat) \<le> 1500
   \<and> (1500::nat) < 1024 * 1024
   \<and> get_file_size_human_readable [''out.csv'' \<mapsto> 1500] ''out.csv''
        = fixed_2f (hundredths 1500 1024) @ '' KB''
   \<and> fixed_2f (hundredths 1500 1024) = ''1.46''"
proof -
  have "fixed_2f (hundredths 1500 1024) = ''1.46''"
    by (simp add: size_eval)
  then show ?thesis
    using get_file_size_human_readable_cases [of "[''out.csv'' \<mapsto> 1500]" "''out.csv''" 1500 1 0]
    by simp
qed

section \<open>The content extractor: results\<close>

lemma word_count_Nil: "word_count [] = 0"
  by (simp add: word_count_def py_split_def)

lemma word_count_fifty_words: "word_count fifty_words = 50"
  by code_simp

lemma fifty_words_not_empty: "fifty_words \<noteq> []"
  by (simp add: fifty_words_def)

lemma long_enough_Some: "long_enough m (Some t) \<longleftrightarrow> t \<noteq> [] \<and> m \<le> word_count t"
  by (simp add: long_enough_def)

lemma long_enough_iff:
  "long_enough m x \<longleftrightarrow> (\<exists>c. x = Some c \<and> c \<noteq> [] \<and> m \<le> word_count c)"
  by (cases x) (simp_all add: long_enough_def)

text \<open>
  Claim C1, as amended.  When the fetch returns nothing or an empty document,
  \<open>scrape_content\<close> returns \<open>None\<close>.  Otherwise it returns the structured-extraction
  text when that text is not empty and has at least \<open>min_words\<close> words; failing that,
  the non-empty paragraph texts joined by newlines when that text is not empty and has
  at least \<open>min_words\<close> words; and \<open>None\<close> in every other case.  For a threshold of
  at least 1 a text with that many words is never empty.
\<close>

theorem scrape_content_cases:
  "(fetch_url env u = None \<or> fetch_url env u = Some [] \<longrightarrow> scrape_content env u min_words = None)
   \<and> (fetch_url env u = Some doc \<and> doc \<noteq> [] \<and> extract_text env doc = Some c \<and> c \<noteq> []
        \<and> min_words \<le> word_count c
      \<longrightarrow> scrape_content env u min_words = Some c)
   \<and> (fetch_url env u = Some doc \<and> doc \<noteq> []
        \<and> \<not> (\<exists>c. extract_text env doc = Some c \<and> c \<noteq> [] \<and> min_words \<le> word_count c)
        \<and> fallback_text env doc \<noteq> [] \<and> min_words \<le> word_count (fallback_text env doc)
      \<longrightarrow> scrape_content env u min_words = Some (fallback_text env doc))
   \<and> (fetch_url env u = Some doc \<and> doc \<noteq> []
        \<and> \<not> (\<exists>c. extract_text env doc = Some c \<and> c \<noteq> [] \<and> min_words \<le> word_count c)
        \<and> \<not> (fallback_text env doc \<noteq> [] \<and> min_words \<le> word_count (fallback_text env doc))
      \<longrightarrow> scrape_content env u min_words = None)
   \<and> (1 \<le> min_words \<and> min_words \<le> word_count t \<longrightarrow> t \<noteq> [])"
proof -
  have last: "1 \<le> min_words \<and> min_words \<le> word_count t \<longrightarrow> t \<noteq> []"
    using word_count_Nil by auto
  have rest: "fetch_url env u = Some doc \<and> doc \<noteq> [] \<longrightarrow>
      scrape_content env u min_words =
        (if long_enough min_words (extract_text env doc) then extract_text env doc
         else if long_enough min_words (Some (fallback_text env doc))
         then Some (fallback_text env doc) else None)"
    by (simp add: scrape_content_def)
  have none: "fetch_url env u = None \<or> fetch_url env u = Some [] \<longrightarrow> scrape_content env u min_words = None"
    by (auto simp: scrape_content_def)
  show ?thesis
    using last rest none
    by (auto simp: long_enough_iff)
qed

theorem scrape_content_witness:
  "fetch_url article_site ''http://a.example/1'' = Some ''<p>ab</p>''
   \<and> ''<p>ab</p>'' \<noteq> []
   \<and> extract_text article_site ''<p>ab</p>'' = Some fifty_words
   \<and> fifty_words \<noteq> []
   \<and> (50::int) \<le> word_count fifty_words
   \<and> scrape_content article_site ''http://a.example/1'' 50 = Some fifty_words"
  using scrape_content_cases [where env = article_site and u = "''http://a.example/1''"
      and min_words = 50 and doc = "''<p>ab</p>''" and c = fifty_words and t = "[]"]
    word_count_fifty_words fifty_words_not_empty
  by (simp add: article_site_def)

text \<open>
  With threshold 0 and a fetched page without text, the joined paragraph text is the
  empty string, whose word count 0 reaches the threshold; \<open>scrape_content\<close> returns
  \<open>None\<close>, not that string.
\<close>

theorem scrape_content_zero_threshold:
  "fetch_url page_without_text ''u'' = Some ''<html></html>''
   \<and> extract_text page_without_text ''<html></html>'' = None
   \<and> (0::int) \<le> word_count (fallback_text page_without_text ''<html></html>'')
   \<and> scrape_content page_without_text ''u'' 0
        \<noteq> Some (fallback_text page_without_text ''<html></html>'')"
  by (simp add: page_without_text_def scrape_content_def long_enough_def fallback_text_def
      word_count_def py_split_def)

section \<open>The crawl: results\<close>

subsection \<open>The dictionary of domain counters\<close>

lemma map_of_bump:
  "map_of (bump f d ds) k =
     (if k = d
      then Some (f (case map_of ds d of None \<Rightarrow> \<lparr>success = 0, fail = 0\<rparr> | Some v \<Rightarrow> v))
      else map_of ds k)"
  by (induction f d ds rule: bump.induct) auto

lemma keys_bump:
  "map fst (bump f d ds) = (if d \<in> set (map fst ds) then map fst ds else map fst ds @ [d])"
  by (induction f d ds rule: bump.induct) auto

lemma success_count_add_success:
  "success_count (add_success d ds) k = success_count ds k + (if k = d then 1 else 0)"
  by (simp add: success_count_def add_success_def map_of_bump split: option.splits)

lemma fail_count_add_success: "fail_count (add_success d ds) k = fail_count ds k"
  by (simp add: fail_count_def add_success_def map_of_bump split: option.splits)

lemma success_count_add_fail: "success_count (add_fail d ds) k = success_count ds k"
  by (simp add: success_count_def add_fail_def map_of_bump split: option.splits)

lemma fail_count_add_fail:
  "fail_count (add_fail d ds) k = fail_count ds k + (if k = d then 1 else 0)"
  by (simp add: fail_count_def add_fail_def map_of_bump split: option.splits)

lemma map_of_add_other:
  "k \<noteq> d \<Longrightarrow> map_of (add_success d ds) k = map_of ds k"
  "k \<noteq> d \<Longrightarrow> map_of (add_fail d ds) k = map_of ds k"
  by (simp_all add: add_success_def add_fail_def map_of_bump)

lemma map_of_add_new:
  "map_of ds d = None \<Longrightarrow> map_of (add_success d ds) d = Some \<lparr>success = 1, fail = 0\<rparr>"
  "map_of ds d = None \<Longrightarrow> map_of (add_fail d ds) d = Some \<lparr>success = 0, fail = 1\<rparr>"
  by (simp_all add: add_success_def add_fail_def map_of_bump)

lemma keys_add:
  "map fst (add_success d ds) = (if d \<in> set (map fst ds) then map fst ds else map fst ds @ [d])"
  "map fst (add_fail d ds) = (if d \<in> set (map fst ds) then map fst ds else map fst ds @ [d])"
  by (simp_all add: add_success_def add_fail_def keys_bump)

subsection \<open>First occurrences\<close>

lemma set_first_seen: "set (first_seen xs) = set xs"
  by (induction xs) auto

lemma distinct_first_seen: "distinct (first_seen xs)"
  by (induction xs) (auto simp: set_first_seen)

lemma first_seen_snoc:
  "first_seen (xs @ [d]) = (if d \<in> set xs then first_seen xs else first_seen xs @ [d])"
  by (induction xs) auto

lemma keys_step:
  assumes "map fst ds = first_seen seen"
  shows "map fst (add_success d ds) = first_seen (seen @ [d])"
    and "map fst (add_fail d ds) = first_seen (seen @ [d])"
  using assms set_first_seen[of seen] by (simp_all add: keys_add first_seen_snoc)

subsection \<open>The extractor at the configured threshold\<close>

lemma scrape_content_Some:
  assumes "scrape_content env u m = Some c"
  shows "c \<noteq> [] \<and> m \<le> word_count c"
  using assms
  by (auto simp: scrape_content_def long_enough_def split: option.splits if_splits)

subsection \<open>One result\<close>

lemma process_result_shape:
  "(\<exists>st1. process_result env bl q r (qd, fu, st) = (qd, fu @ [href r], st1)
       \<and> domain_stats st1 = add_fail (netloc env (href r)) (domain_stats st)
       \<and> all_data st1 = all_data st \<and> files st1 = files st
       \<and> filter is_search (calls st1) = filter is_search (calls st))
   \<or> (\<exists>st1 c ents t n. process_result env bl q r (qd, fu, st) =
         (qd @ [\<lparr>topic = q, title = t, url = href r, domain = netloc env (href r),
                 snippet = make_snippet c, content = c, scraped_at = n, entities = ents,
                 keywords_list = []\<rparr>], fu, st1)
       \<and> domain_stats st1 = add_success (netloc env (href r)) (domain_stats st)
       \<and> all_data st1 = all_data st \<and> files st1 = files st
       \<and> filter is_search (calls st1) = filter is_search (calls st))"
  by (auto simp: Let_def split: option.splits sum.splits)

declare process_result.simps [simp del]

lemma process_result_snippets:
  assumes "process_result env bl q r (qd, fu, st) = (qd1, fu1, st1)"
    and "list_all snippet_ok qd"
  shows "list_all snippet_ok qd1"
  using process_result_shape [of env bl q r qd fu st] assms
  by (auto simp: snippet_ok_def make_snippet_def)

subsection \<open>The results of one query\<close>

lemma scrape_results_state:
  "scrape_results env bl q rs (qd, fu, st) = (qd', fu', st') \<Longrightarrow>
     all_data st' = all_data st \<and> files st' = files st
     \<and> filter is_search (calls st') = filter is_search (calls st)"
proof (induction rs arbitrary: qd fu st)
  case Nil
  then show ?case by simp
next
  case (Cons r rs)
  from process_result_shape [of env bl q r qd fu st]
  obtain qd1 fu1 st1 where
    step: "process_result env bl q r (qd, fu, st) = (qd1, fu1, st1)"
    and same: "all_data st1 = all_data st" "files st1 = files st"
      "filter is_search (calls st1) = filter is_search (calls st)"
    by blast
  from Cons.prems step have "scrape_results env bl q rs (qd1, fu1, st1) = (qd', fu', st')"
    by simp
  from Cons.IH [OF this] same show ?case by simp
qed

lemma scrape_results_counts:
  "scrape_results env bl q rs (qd, fu, st) = (qd', fu', st') \<Longrightarrow>
     success_count (domain_stats st') k + fail_count (domain_stats st') k
       = success_count (domain_stats st) k + fail_count (domain_stats st) k
         + int (count_list (map (\<lambda>r. netloc env (href r)) rs) k)
     \<and> success_count (domain_stats st) k \<le> success_count (domain_stats st') k
     \<and> fail_count (domain_stats st) k \<le> fail_count (domain_stats st') k"
proof (induction rs arbitrary: qd fu st)
  case Nil
  then show ?case by simp
next
  case (Cons r rs)
  from process_result_shape [of env bl q r qd fu st]
  obtain qd1 fu1 st1 where
    step: "process_result env bl q r (qd, fu, st) = (qd1, fu1, st1)"
    and stats: "domain_stats st1 = add_fail (netloc env (href r)) (domain_stats st)
        \<or> domain_stats st1 = add_success (netloc env (href r)) (domain_stats st)"
    by blast
  from Cons.prems step have "scrape_results env bl q rs (qd1, fu1, st1) = (qd', fu', st')"
    by simp
  from Cons.IH [OF this] stats show ?case
    by (auto simp: success_count_add_success fail_count_add_success
        success_count_add_fail fail_count_add_fail)
qed

lemma scrape_results_keys:
  "scrape_results env bl q rs (qd, fu, st) = (qd', fu', st') \<Longrightarrow>
   map fst (domain_stats st) = first_seen seen \<Longrightarrow>
   map fst (domain_stats st') = first_seen (seen @ map (\<lambda>r. netloc env (href r)) rs)"
proof (induction rs arbitrary: qd fu st seen)
  case Nil
  then show ?case by simp
next
  case (Cons r rs)
  from process_result_shape [of env bl q r qd fu st]
  obtain qd1 fu1 st1 where
    step: "process_result env bl q r (qd, fu, st) = (qd1, fu1, st1)"
    and stats: "domain_stats st1 = add_fail (netloc env (href r)) (domain_stats st)
        \<or> domain_stats st1 = add_success (netloc env (href r)) (domain_stats st)"
    by blast
  from stats Cons.prems(2)
  have keys: "map fst (domain_stats st1) = first_seen (seen @ [netloc env (href r)])"
    using keys_step by metis
  from Cons.prems step have "scrape_results env bl q rs (qd1, fu1, st1) = (qd', fu', st')"
    by simp
  from Cons.IH [OF this keys] show ?case by simp
qed

lemma scrape_results_snippets:
  "scrape_results env bl q rs (qd, fu, st) = (qd', fu', st') \<Longrightarrow>
   list_all snippet_ok qd \<Longrightarrow> list_all snippet_ok qd'"
proof (induction rs arbitrary: qd fu st)
  case Nil
  then show ?case by simp
next
  case (Cons r rs)
  obtain qd1 fu1 st1 where
    step: "process_result env bl q r (qd, fu, st) = (qd1, fu1, st1)"
    by (metis prod_cases3)
  from process_result_snippets [OF step Cons.prems(2)]
  have ok: "list_all snippet_ok qd1" .
  from Cons.prems step have "scrape_results env bl q rs (qd1, fu1, st1) = (qd', fu', st')"
    by simp
  from Cons.IH [OF this ok] show ?case .
qed

subsection \<open>One query\<close>

lemma write_file_fields:
  "all_data (snd (write_file env p x st)) = all_data st"
  "domain_stats (snd (write_file env p x st)) = domain_stats st"
  "clock (snd (write_file env p x st)) = clock st"
  "calls (snd (write_file env p x st)) = calls st @ [WriteCall p]"
  by (simp_all add: write_file_def Let_def)

lemma write_file_result:
  "fst (write_file env p x st) \<longleftrightarrow> \<not> write_fails env p"
  "files (snd (write_file env p x st)) = (if write_fails env p then files st else (files st)(p \<mapsto> x))"
  by (simp_all add: write_file_def Let_def)

lemma process_query_abandoned:
  "ddgs_text env q mr = Inl e \<or> ddgs_text env q mr = Inr [] \<Longrightarrow>
   process_query env bl mr st q = st\<lparr>calls := calls st @ [SearchCall q mr]\<rparr>"
  by (auto simp: process_query_def)

lemma process_query_scraped:
  assumes "ddgs_text env q mr = Inr rs" "rs \<noteq> []"
    and "scrape_results env bl q rs ([], [], st\<lparr>calls := calls st @ [SearchCall q mr]\<rparr>)
           = (qd, fu, st2)"
  shows "all_data (process_query env bl mr st q) = all_data st @ qd"
    and "domain_stats (process_query env bl mr st q) = domain_stats st2"
    and "filter is_search (calls (process_query env bl mr st q))
           = filter is_search (calls st) @ [SearchCall q mr]"
proof -
  from scrape_results_state [OF assms(3)]
  have st2: "all_data st2 = all_data st"
    "filter is_search (calls st2) = filter is_search (calls st) @ [SearchCall q mr]"
    by simp_all
  show "all_data (process_query env bl mr st q) = all_data st @ qd"
    using assms st2 by (simp add: process_query_def Let_def write_file_fields)
  show "domain_stats (process_query env bl mr st q) = domain_stats st2"
    using assms by (simp add: process_query_def Let_def write_file_fields)
  show "filter is_search (calls (process_query env bl mr st q))
           = filter is_search (calls st) @ [SearchCall q mr]"
    using assms st2 by (simp add: process_query_def Let_def write_file_fields)
qed

text \<open>What one query contributes, whatever its search did.\<close>

lemma process_query_summary:
  assumes "map fst (domain_stats st) = first_seen seen"
    and "list_all snippet_ok (all_data st)"
  shows "(success_count (domain_stats (process_query env bl mr st q)) k
           + fail_count (domain_stats (process_query env bl mr st q)) k
         = success_count (domain_stats st) k + fail_count (domain_stats st) k
           + int (count_list (map (netloc env) (query_urls env mr q)) k))
    \<and> success_count (domain_stats st) k
           \<le> success_count (domain_stats (process_query env bl mr st q)) k
    \<and> fail_count (domain_stats st) k
           \<le> fail_count (domain_stats (process_query env bl mr st q)) k
    \<and> map fst (domain_stats (process_query env bl mr st q))
           = first_seen (seen @ map (netloc env) (query_urls env mr q))
    \<and> list_all snippet_ok (all_data (process_query env bl mr st q))
    \<and> filter is_search (calls (process_query env bl mr st q))
           = filter is_search (calls st) @ [SearchCall q mr]"
proof -
  let ?st1 = "st\<lparr>calls := calls st @ [SearchCall q mr]\<rparr>"
  consider (abandoned) "(\<exists>e. ddgs_text env q mr = Inl e) \<or> ddgs_text env q mr = Inr []"
    | (scraped) rs where "ddgs_text env q mr = Inr rs" "rs \<noteq> []"
    by (cases "ddgs_text env q mr") auto
  then show ?thesis
  proof cases
    case abandoned
    then have pq: "process_query env bl mr st q = ?st1"
      using process_query_abandoned by blast
    from abandoned have "query_urls env mr q = []"
      by (auto simp: query_urls_def)
    with pq assms show ?thesis by simp
  next
    case scraped
    obtain qd fu st2 where
      sr: "scrape_results env bl q rs ([], [], ?st1) = (qd, fu, st2)"
      by (metis prod_cases3)
    have urls: "map (netloc env) (query_urls env mr q) = map (\<lambda>r. netloc env (href r)) rs"
      using scraped by (simp add: query_urls_def comp_def)
    note pq = process_query_scraped [OF scraped sr]
    have keys: "map fst (domain_stats ?st1) = first_seen seen"
      using assms(1) by simp
    have "list_all snippet_ok qd"
      using scrape_results_snippets [OF sr] by simp
    with assms(2) have d: "list_all snippet_ok (all_data st @ qd)" by simp
    show ?thesis
      using scrape_results_counts [OF sr, of k] scrape_results_keys [OF sr keys] pq d urls
      by simp
  qed
qed

subsection \<open>All queries\<close>

lemma run_queries_snoc:
  "run_queries env bl mr (qs @ [q]) st = process_query env bl mr (run_queries env bl mr qs st) q"
  by (simp add: run_queries_def)

lemma attempted_urls_snoc:
  "attempted_urls env mr (qs @ [q]) = attempted_urls env mr qs @ query_urls env mr q"
  by (simp add: attempted_urls_def)

lemma run_queries_summary:
  "(success_count (domain_stats (run_queries env bl mr qs (initial_state fs))) k
      + fail_count (domain_stats (run_queries env bl mr qs (initial_state fs))) k
    = int (count_list (map (netloc env) (attempted_urls env mr qs)) k))
   \<and> 0 \<le> success_count (domain_stats (run_queries env bl mr qs (initial_state fs))) k
   \<and> 0 \<le> fail_count (domain_stats (run_queries env bl mr qs (initial_state fs))) k
   \<and> map fst (domain_stats (run_queries env bl mr qs (initial_state fs)))
       = first_seen (map (netloc env) (attempted_urls env mr qs))
   \<and> list_all snippet_ok (all_data (run_queries env bl mr qs (initial_state fs)))
   \<and> filter is_search (calls (run_queries env bl mr qs (initial_state fs)))
       = map (\<lambda>q. SearchCall q mr) qs"
proof (induction qs rule: rev_induct)
  case Nil
  show ?case
    by (simp add: run_queries_def initial_state_def attempted_urls_def success_count_def
        fail_count_def)
next
  case (snoc q qs)
  let ?st = "run_queries env bl mr qs (initial_state fs)"
  from snoc have keys: "map fst (domain_stats ?st)
       = first_seen (map (netloc env) (attempted_urls env mr qs))"
    and ok: "list_all snippet_ok (all_data ?st)"
    by simp_all
  note pq = process_query_summary [OF keys ok, where env = env and bl = bl and mr = mr and q = q and k = k]
  show ?case
    unfolding run_queries_snoc attempted_urls_snoc
    using snoc pq by simp
qed

subsection \<open>The loop body, exactly\<close>

lemma process_result_exact:
  "process_result env bl q r (qd, fu, st) =
     (if netloc env (href r) \<notin> bl
         \<and> (\<exists>c ents. scrape_content env (href r) MIN_WORDS_FOR_CONTENT = Some c
               \<and> extract_entities env c = Inr ents)
      then
        (case scrape_content env (href r) MIN_WORDS_FOR_CONTENT of
           Some c \<Rightarrow>
             (case extract_entities env c of
                Inr ents \<Rightarrow>
                  (qd @ [\<lparr>topic = q,
                          title = (case result_title r of None \<Rightarrow> ''Untitled'' | Some x \<Rightarrow> x),
                          url = href r, domain = netloc env (href r),
                          snippet = make_snippet c, content = c,
                          scraped_at = utcnow env (clock st), entities = ents,
                          keywords_list = []\<rparr>],
                   fu,
                   st\<lparr>calls := calls st @ [ScrapeCall (href r)], clock := Suc (clock st),
                      domain_stats := add_success (netloc env (href r)) (domain_stats st)\<rparr>)))
      else
        (qd, fu @ [href r],
         st\<lparr>calls := calls st @ (if netloc env (href r) \<in> bl then [] else [ScrapeCall (href r)]),
            clock := (if netloc env (href r) \<in> bl
                        \<or> scrape_content env (href r) MIN_WORDS_FOR_CONTENT = None
                      then clock st else Suc (clock st)),
            domain_stats := add_fail (netloc env (href r)) (domain_stats st)\<rparr>))"
  using scrape_content_Some [of env "href r" MIN_WORDS_FOR_CONTENT]
  by (auto simp: process_result.simps Let_def split: option.splits sum.splits)


subsection \<open>The writes after the loop\<close>

lemma save_outputs_fields:
  "all_data (save_outputs env st) = all_data st"
  "domain_stats (save_outputs env st) = domain_stats st"
  by (simp_all add: save_outputs_def Let_def write_file_def split: prod.splits bool.splits)

lemma save_outputs_calls:
  "calls (save_outputs env st) =
     calls st
     @ (if all_data st = [] then []
        else WriteCall merged_csv
               # (if write_fails env merged_csv then [] else [WriteCall merged_json]))
     @ [WriteCall domain_log]"
  by (simp add: save_outputs_def Let_def write_file_def split: prod.splits bool.splits)

lemma save_outputs_summary_file:
  "\<not> write_fails env domain_log \<Longrightarrow>
   files (save_outputs env st) domain_log = Some (CsvSummary (domain_summary (domain_stats st)))"
  by (simp add: save_outputs_def Let_def write_file_def split: prod.splits bool.splits)

subsection \<open>The summary rows\<close>

lemma row_domain_summary: "map row_domain (domain_summary ds) = map fst (sort_key (\<lambda>x. - success (snd x)) ds)"
  by (simp add: domain_summary_def summary_row_of_def comp_def)

lemma distinct_keys_sorted:
  assumes "distinct (map fst ds)"
  shows "distinct (map fst (sort_key f ds))"
proof -
  from assms have "distinct ds" "inj_on fst (set ds)"
    by (simp_all add: distinct_map)
  then show ?thesis by (simp add: distinct_map)
qed

lemma domain_summary_sorted:
  "sorted_wrt (\<lambda>a b. successes b \<le> successes a) (domain_summary ds)"
proof -
  have "sorted (map (\<lambda>x. - success (snd x)) (sort_key (\<lambda>x. - success (snd x)) ds))"
    by (rule sorted_sort_key)
  then have "sorted_wrt (\<lambda>x y. success (snd y) \<le> success (snd x))
               (sort_key (\<lambda>x. - success (snd x)) ds)"
    by (simp add: sorted_map)
  then show ?thesis
    by (simp add: domain_summary_def sorted_wrt_map summary_row_of_def)
qed

lemma domain_summary_stable:
  "filter (\<lambda>r. successes r = n) (domain_summary ds)
     = map summary_row_of (filter (\<lambda>x. success (snd x) = n) ds)"
proof -
  have "filter (\<lambda>x. success (snd x) = n) (sort_key (\<lambda>x. - success (snd x)) ds)
          = filter (\<lambda>x. - success (snd x) = - n) (sort_key (\<lambda>x. - success (snd x)) ds)"
    by simp
  also have "\<dots> = filter (\<lambda>x. - success (snd x) = - n) ds"
    by (rule sort_key_stable)
  finally have "filter (\<lambda>x. success (snd x) = n) (sort_key (\<lambda>x. - success (snd x)) ds)
          = filter (\<lambda>x. success (snd x) = n) ds"
    by simp
  then show ?thesis
    by (simp add: domain_summary_def filter_map comp_def summary_row_of_def)
qed

lemma domain_summary_counters:
  assumes "distinct (map fst ds)" "r \<in> set (domain_summary ds)"
  shows "successes r = success_count ds (row_domain r)
       \<and> failures r = fail_count ds (row_domain r)"
proof -
  from assms(2) obtain d v where dv: "(d, v) \<in> set ds" and r: "r = summary_row_of (d, v)"
    by (auto simp: domain_summary_def)
  from assms(1) dv have "map_of ds d = Some v" by simp
  with r show ?thesis
    by (simp add: summary_row_of_def success_count_def fail_count_def)
qed

subsection \<open>The snippet\<close>

lemma str_replace_map:
  "str_replace old [new] s = map (\<lambda>c. if c = old then new else c) s"
  by (induction s) simp_all

lemma dropWhile_id: "s = [] \<or> \<not> P (hd s) \<Longrightarrow> dropWhile P s = s"
  by (cases s) auto

lemma py_strip_id:
  assumes "s = [] \<or> (\<not> py_isspace (hd s) \<and> \<not> py_isspace (last s))"
  shows "py_strip s = s"
proof -
  from assms have a: "dropWhile py_isspace s = s"
    by (auto intro: dropWhile_id)
  from assms have "rev s = [] \<or> \<not> py_isspace (hd (rev s))"
    by (auto simp: hd_rev)
  then have "dropWhile py_isspace (rev s) = rev s"
    by (rule dropWhile_id)
  with a show ?thesis by (simp add: py_strip_def)
qed

subsection \<open>Example runs\<close>

lemma article_site_scrape: "scrape_content article_site ''http://a.example/1'' MIN_WORDS_FOR_CONTENT = Some fifty_words"
  by (simp add: scrape_content_def article_site_def long_enough_def word_count_fifty_words
      fifty_words_not_empty MIN_WORDS_FOR_CONTENT_def)

lemma article_site_entities: "extract_entities article_site fifty_words = Inr [(''ORG'', {''ab''})]"
  by (simp add: extract_entities_def article_site_def entity_labels_def texts_of_label_def)

lemma annotator_down_scrape: "scrape_content annotator_down ''http://a.example/1'' MIN_WORDS_FOR_CONTENT = Some fifty_words"
  by (simp add: scrape_content_def annotator_down_def article_site_def long_enough_def word_count_fifty_words
      fifty_words_not_empty MIN_WORDS_FOR_CONTENT_def)

lemma annotator_down_entities: "extract_entities annotator_down fifty_words = Inl (Exception ''text too long'')"
  by (simp add: extract_entities_def annotator_down_def article_site_def)



lemma two_sites_scrape_a: "scrape_content two_sites ''http://a.example/1'' MIN_WORDS_FOR_CONTENT = None"
  by (simp add: scrape_content_def two_sites_def)

lemma two_sites_scrape_b: "scrape_content two_sites ''http://b.example/2'' MIN_WORDS_FOR_CONTENT = Some fifty_words"
  by (simp add: scrape_content_def two_sites_def long_enough_def
      word_count_fifty_words fifty_words_not_empty MIN_WORDS_FOR_CONTENT_def)

lemma two_sites_entities: "extract_entities two_sites fifty_words = Inr [(''ORG'', {''ab''})]"
  by (simp add: extract_entities_def two_sites_def entity_labels_def texts_of_label_def)

lemma snippet_fifty_words:
  "make_snippet fifty_words \<noteq> str_replace newline '' '' (take 300 fifty_words) @ ''...''"
  by code_simp

lemma run_article_site:
  "all_data (run_queries article_site {} 10 [''q''] (initial_state Map.empty)) =
     [\<lparr>topic = ''q'', title = ''A'', url = ''http://a.example/1'', domain = ''a.example'',
       snippet = make_snippet fifty_words, content = fifty_words,
       scraped_at = ''2024-01-01T00:00:00'', entities = [(''ORG'', {''ab''})],
       keywords_list = []\<rparr>]"
  using article_site_scrape article_site_entities
  by (simp add: run_queries_def process_query_def article_site_def Let_def write_file_fields
      initial_state_def process_result_exact split: prod.splits)

lemma run_two_sites:
  "domain_stats (run_queries two_sites {} 10 [''q''] (initial_state Map.empty)) =
     [(''a.example'', \<lparr>success = 0, fail = 1\<rparr>), (''b.example'', \<lparr>success = 1, fail = 0\<rparr>)]"
  using two_sites_scrape_a two_sites_scrape_b two_sites_entities
  by (simp add: run_queries_def process_query_def two_sites_def Let_def write_file_fields
      initial_state_def process_result_exact add_success_def add_fail_def split: prod.splits)


subsection \<open>Runs that reach their end\<close>







text \<open>
  The two exits: \<open>args\<close> without a value, and a search result whose URL \<open>urlparse\<close>
  rejects.  In the second run the query after the rejected URL is not searched and no
  file is written.
\<close>

lemma unbound_args_end_run:
  "main_program malformed env None bl fs = Inl (Exception ''NameError'', initial_state fs)"
  by (simp add: main_program_def)

lemma malformed_href_ends_run:
  "main_program unbalanced_bracket broken_link
     (Some \<lparr>arg_queries = [''first'', ''second''], arg_max_results = 10\<rparr>) {} Map.empty
   = Inl (Exception ''ValueError'', (initial_state Map.empty)\<lparr>calls := [SearchCall ''first'' 10]\<rparr>)"
  by (simp add: main_program_def process_query_or_raise_def process_result_or_raise_def
      broken_link_def article_site_def unbalanced_bracket_def initial_state_def)

section \<open>The claims about the crawl\<close>

text \<open>
  Claim C2.  Processing one result whose host is \<open>d\<close> adds one to exactly one of the two
  counters of \<open>d\<close> and leaves the other; the entries of all other domains are
  untouched; an entry that did not exist is created with both counters zero by this
  first reference, so that it holds one success or one failure afterwards.  Over any
  list of results, from any state, the sum of the two counters of a domain grows by
  the number of results with that host, and no counter decreases.  After any run the
  sum is the number of attempted URLs with that host, both counters are non-negative,
  and a domain has an entry exactly when a URL with that host was attempted.
\<close>

theorem domain_counters:
  "(case process_result env bl q r (qd, fu, st) of
      (qd', fu', st') \<Rightarrow>
        ((success_count (domain_stats st') (netloc env (href r))
             = success_count (domain_stats st) (netloc env (href r)) + 1
          \<and> fail_count (domain_stats st') (netloc env (href r))
             = fail_count (domain_stats st) (netloc env (href r)))
         \<or> (success_count (domain_stats st') (netloc env (href r))
             = success_count (domain_stats st) (netloc env (href r))
          \<and> fail_count (domain_stats st') (netloc env (href r))
             = fail_count (domain_stats st) (netloc env (href r)) + 1))
        \<and> (\<forall>k. k \<noteq> netloc env (href r) \<longrightarrow>
               map_of (domain_stats st') k = map_of (domain_stats st) k)
        \<and> (map_of (domain_stats st) (netloc env (href r)) = None \<longrightarrow>
               map_of (domain_stats st') (netloc env (href r)) = Some \<lparr>success = 1, fail = 0\<rparr>
             \<or> map_of (domain_stats st') (netloc env (href r)) = Some \<lparr>success = 0, fail = 1\<rparr>))
   \<and> (case scrape_results env bl q rs (qd, fu, st) of
      (qd', fu', st') \<Rightarrow>
        (\<forall>k. success_count (domain_stats st') k + fail_count (domain_stats st') k
                = success_count (domain_stats st) k + fail_count (domain_stats st) k
                  + int (count_list (map (\<lambda>r. netloc env (href r)) rs) k)
            \<and> success_count (domain_stats st) k \<le> success_count (domain_stats st') k
            \<and> fail_count (domain_stats st) k \<le> fail_count (domain_stats st') k))
   \<and> (\<forall>k. success_count (domain_stats (run_queries env bl mr qs (initial_state fs))) k
            + fail_count (domain_stats (run_queries env bl mr qs (initial_state fs))) k
          = int (count_list (map (netloc env) (attempted_urls env mr qs)) k)
        \<and> 0 \<le> success_count (domain_stats (run_queries env bl mr qs (initial_state fs))) k
        \<and> 0 \<le> fail_count (domain_stats (run_queries env bl mr qs (initial_state fs))) k
        \<and> (map_of (domain_stats (run_queries env bl mr qs (initial_state fs))) k = None
             \<longleftrightarrow> k \<notin> set (map (netloc env) (attempted_urls env mr qs))))"
proof -
  obtain qd1 fu1 st1 where step: "process_result env bl q r (qd, fu, st) = (qd1, fu1, st1)"
    by (metis prod_cases3)
  from process_result_shape [of env bl q r qd fu st] step
  have stats: "domain_stats st1 = add_fail (netloc env (href r)) (domain_stats st)
        \<or> domain_stats st1 = add_success (netloc env (href r)) (domain_stats st)"
    by auto
  have one: "(case process_result env bl q r (qd, fu, st) of
      (qd', fu', st') \<Rightarrow>
        ((success_count (domain_stats st') (netloc env (href r))
             = success_count (domain_stats st) (netloc env (href r)) + 1
          \<and> fail_count (domain_stats st') (netloc env (href r))
             = fail_count (domain_stats st) (netloc env (href r)))
         \<or> (success_count (domain_stats st') (netloc env (href r))
             = success_count (domain_stats st) (netloc env (href r))
          \<and> fail_count (domain_stats st') (netloc env (href r))
             = fail_count (domain_stats st) (netloc env (href r)) + 1))
        \<and> (\<forall>k. k \<noteq> netloc env (href r) \<longrightarrow>
               map_of (domain_stats st') k = map_of (domain_stats st) k)
        \<and> (map_of (domain_stats st) (netloc env (href r)) = None \<longrightarrow>
               map_of (domain_stats st') (netloc env (href r)) = Some \<lparr>success = 1, fail = 0\<rparr>
             \<or> map_of (domain_stats st') (netloc env (href r)) = Some \<lparr>success = 0, fail = 1\<rparr>))"
    unfolding step using stats
    by (auto simp: success_count_add_success fail_count_add_success
        success_count_add_fail fail_count_add_fail map_of_add_other map_of_add_new)
  obtain qd2 fu2 st2 where loop: "scrape_results env bl q rs (qd, fu, st) = (qd2, fu2, st2)"
    by (metis prod_cases3)
  have many: "(case scrape_results env bl q rs (qd, fu, st) of
      (qd', fu', st') \<Rightarrow>
        (\<forall>k. success_count (domain_stats st') k + fail_count (domain_stats st') k
                = success_count (domain_stats st) k + fail_count (domain_stats st) k
                  + int (count_list (map (\<lambda>r. netloc env (href r)) rs) k)
            \<and> success_count (domain_stats st) k \<le> success_count (domain_stats st') k
            \<and> fail_count (domain_stats st) k \<le> fail_count (domain_stats st') k))"
    unfolding loop using scrape_results_counts [OF loop] by simp
  have run: "\<And>k. success_count (domain_stats (run_queries env bl mr qs (initial_state fs))) k
            + fail_count (domain_stats (run_queries env bl mr qs (initial_state fs))) k
          = int (count_list (map (netloc env) (attempted_urls env mr qs)) k)
        \<and> 0 \<le> success_count (domain_stats (run_queries env bl mr qs (initial_state fs))) k
        \<and> 0 \<le> fail_count (domain_stats (run_queries env bl mr qs (initial_state fs))) k
        \<and> (map_of (domain_stats (run_queries env bl mr qs (initial_state fs))) k = None
             \<longleftrightarrow> k \<notin> set (map (netloc env) (attempted_urls env mr qs)))"
  proof -
    fix k
    let ?ds = "domain_stats (run_queries env bl mr qs (initial_state fs))"
    note s = run_queries_summary [of env bl mr qs fs k]
    have "map_of ?ds k = None \<longleftrightarrow> k \<notin> set (map fst ?ds)"
      by (simp add: map_of_eq_None_iff)
    also have "\<dots> \<longleftrightarrow> k \<notin> set (map (netloc env) (attempted_urls env mr qs))"
      using s set_first_seen [of "map (netloc env) (attempted_urls env mr qs)"] by simp
    finally show "success_count ?ds k + fail_count ?ds k
          = int (count_list (map (netloc env) (attempted_urls env mr qs)) k)
        \<and> 0 \<le> success_count ?ds k \<and> 0 \<le> fail_count ?ds k
        \<and> (map_of ?ds k = None
             \<longleftrightarrow> k \<notin> set (map (netloc env) (attempted_urls env mr qs)))"
      using s by simp
  qed
  from one many run show ?thesis by blast
qed

theorem domain_counters_witness:
  "success_count (domain_stats (run_queries two_sites {} 10 [''q''] (initial_state Map.empty)))
       ''a.example''
     + fail_count (domain_stats (run_queries two_sites {} 10 [''q''] (initial_state Map.empty)))
         ''a.example'' = 1
   \<and> count_list (map (netloc two_sites) (attempted_urls two_sites 10 [''q''])) ''a.example'' = 1"
proof -
  have c: "count_list (map (netloc two_sites) (attempted_urls two_sites 10 [''q'']))
             ''a.example'' = 1"
    by (simp add: attempted_urls_def query_urls_def two_sites_def)
  from domain_counters [where env = two_sites and bl = "{}" and mr = 10 and qs = "[''q'']"
      and fs = Map.empty and q = "[]" and r = first_result and qd = "[]" and fu = "[]"
      and st = "initial_state Map.empty" and rs = "[]"]
  have "success_count (domain_stats (run_queries two_sites {} 10 [''q''] (initial_state Map.empty)))
       ''a.example''
     + fail_count (domain_stats (run_queries two_sites {} 10 [''q''] (initial_state Map.empty)))
         ''a.example''
     = int (count_list (map (netloc two_sites) (attempted_urls two_sites 10 [''q''])) ''a.example'')"
    by blast
  with c show ?thesis by simp
qed

text \<open>
  Claim C3, as amended.  Processing a result appends a record if and only if the host
  of its URL is not a member of the blacklist, \<open>scrape_content\<close> yields a text (which
  then has at least \<open>MIN_WORDS_FOR_CONTENT\<close> words), and the entity annotation of that
  text does not raise.  In every other case no record is appended, the URL goes to the
  failure list and the host receives one failure; a blacklisted host is no different
  in this from a failed scrape, except that no scrape call is made for it.
\<close>

theorem record_produced_iff:
  "(case process_result env bl q r (qd, fu, st) of
      (qd', fu', st') \<Rightarrow>
        (if netloc env (href r) \<notin> bl
            \<and> (\<exists>c ents. scrape_content env (href r) MIN_WORDS_FOR_CONTENT = Some c
                  \<and> extract_entities env c = Inr ents)
         then (\<exists>rec. qd' = qd @ [rec] \<and> url rec = href r
                 \<and> domain rec = netloc env (href r)
                 \<and> scrape_content env (href r) MIN_WORDS_FOR_CONTENT = Some (content rec)
                 \<and> MIN_WORDS_FOR_CONTENT \<le> word_count (content rec))
              \<and> fu' = fu
              \<and> domain_stats st' = add_success (netloc env (href r)) (domain_stats st)
         else qd' = qd \<and> fu' = fu @ [href r]
              \<and> domain_stats st' = add_fail (netloc env (href r)) (domain_stats st))
        \<and> (netloc env (href r) \<in> bl \<longrightarrow> calls st' = calls st)
        \<and> (netloc env (href r) \<notin> bl \<longrightarrow> calls st' = calls st @ [ScrapeCall (href r)]))"
proof (cases "netloc env (href r) \<notin> bl
         \<and> (\<exists>c ents. scrape_content env (href r) MIN_WORDS_FOR_CONTENT = Some c
               \<and> extract_entities env c = Inr ents)")
  case True
  then obtain c ents where c: "scrape_content env (href r) MIN_WORDS_FOR_CONTENT = Some c"
    and e: "extract_entities env c = Inr ents" by blast
  from scrape_content_Some [OF c] have "MIN_WORDS_FOR_CONTENT \<le> word_count c" by simp
  with True c e show ?thesis
    by (simp add: process_result_exact)
next
  case False
  have pr: "process_result env bl q r (qd, fu, st) =
        (qd, fu @ [href r],
         st\<lparr>calls := calls st @ (if netloc env (href r) \<in> bl then [] else [ScrapeCall (href r)]),
            clock := (if netloc env (href r) \<in> bl
                        \<or> scrape_content env (href r) MIN_WORDS_FOR_CONTENT = None
                      then clock st else Suc (clock st)),
            domain_stats := add_fail (netloc env (href r)) (domain_stats st)\<rparr>)"
    by (simp only: process_result_exact False if_False)
  show ?thesis
    by (simp only: pr False if_False prod.case, simp)
qed

text \<open>On \<open>article_site\<close> the three conditions hold and one record is appended.\<close>

theorem record_produced_witness:
  "netloc article_site (href first_result) \<notin> {}
   \<and> scrape_content article_site (href first_result) MIN_WORDS_FOR_CONTENT = Some fifty_words
   \<and> extract_entities article_site fifty_words = Inr [(''ORG'', {''ab''})]
   \<and> length (fst (process_result article_site {} ''q'' first_result
                      ([], [], initial_state Map.empty))) = 1"
proof -
  have c: "netloc article_site (href first_result) \<notin> {}
     \<and> (\<exists>c ents. scrape_content article_site (href first_result) MIN_WORDS_FOR_CONTENT = Some c
           \<and> extract_entities article_site c = Inr ents)"
    using article_site_scrape article_site_entities by (simp add: first_result_def)
  obtain qd1 fu1 st1 where
    pr: "process_result article_site {} ''q'' first_result ([], [], initial_state Map.empty)
           = (qd1, fu1, st1)"
    by (metis prod_cases3)
  from record_produced_iff [where env = article_site and bl = "{}" and q = "''q''"
      and r = first_result and qd = "[]" and fu = "[]" and st = "initial_state Map.empty"] c
  have "\<exists>rec. qd1 = [] @ [rec]"
    unfolding pr by auto
  then have "length qd1 = 1" by auto
  with pr article_site_scrape article_site_entities show ?thesis by (simp add: first_result_def)
qed

text \<open>
  When the annotation raises, a host that is not blacklisted and a text of fifty words
  produce no record.
\<close>

theorem annotation_error_no_record:
  "netloc annotator_down (href first_result) \<notin> {}
   \<and> scrape_content annotator_down (href first_result) MIN_WORDS_FOR_CONTENT = Some fifty_words
   \<and> MIN_WORDS_FOR_CONTENT \<le> word_count fifty_words
   \<and> fst (process_result annotator_down {} ''q'' first_result ([], [], initial_state Map.empty)) = []"
  using annotator_down_scrape annotator_down_entities
  by (simp add: process_result_exact first_result_def word_count_fifty_words MIN_WORDS_FOR_CONTENT_def)

text \<open>
  Claim C4, as amended.  The snippet of every record of a run is the first 300
  characters of its content, with white space removed at both ends of that prefix,
  then each newline replaced by a space, then \<open>"..."\<close> appended, whatever the length
  of the content.  The replacement is character by character, and the removal changes
  nothing when the prefix neither begins nor ends with white space.
\<close>

theorem snippet_of_record:
  "(\<forall>r \<in> set (all_data (main env bl qs mr fs)).
       snippet r = str_replace newline '' '' (py_strip (take 300 (content r))) @ ''...'')
   \<and> str_replace newline '' '' s = map (\<lambda>c. if c = newline then CHR '' '' else c) s
   \<and> (s = [] \<or> (\<not> py_isspace (hd s) \<and> \<not> py_isspace (last s)) \<longrightarrow> py_strip s = s)"
proof -
  have "list_all snippet_ok (all_data (main env bl qs mr fs))"
    using run_queries_summary [of env bl mr qs fs "[]"]
    by (simp add: main_def save_outputs_fields)
  then have "\<forall>r \<in> set (all_data (main env bl qs mr fs)).
       snippet r = str_replace newline '' '' (py_strip (take 300 (content r))) @ ''...''"
    by (simp add: list_all_iff snippet_ok_def)
  then show ?thesis
    using str_replace_map [of newline "CHR '' ''" s] py_strip_id [of s] by blast
qed

theorem snippet_of_record_witness:
  "all_data (main article_site {} [''q''] 10 Map.empty) \<noteq> []
   \<and> snippet (hd (all_data (main article_site {} [''q''] 10 Map.empty)))
       = str_replace newline '' ''
           (py_strip (take 300 (content (hd (all_data (main article_site {} [''q''] 10 Map.empty))))))
         @ ''...''"
proof -
  have ne: "all_data (main article_site {} [''q''] 10 Map.empty) \<noteq> []"
    by (simp add: main_def save_outputs_fields run_article_site)
  then have "hd (all_data (main article_site {} [''q''] 10 Map.empty))
               \<in> set (all_data (main article_site {} [''q''] 10 Map.empty))"
    by simp
  with ne snippet_of_record [where env = article_site and bl = "{}" and qs = "[''q'']"
      and mr = 10 and fs = Map.empty and s = "[]"]
  show ?thesis by blast
qed

text \<open>
  The content \<open>fifty_words\<close> is shorter than 300 characters and ends with a space: the
  snippet of its record lacks that space, so it is not the prefix with newlines
  replaced and \<open>"..."\<close> appended.
\<close>

theorem snippet_strips_whitespace:
  "map content (all_data (main article_site {} [''q''] 10 Map.empty)) = [fifty_words]
   \<and> map snippet (all_data (main article_site {} [''q''] 10 Map.empty))
       \<noteq> [str_replace newline '' '' (take 300 fifty_words) @ ''...'']"
  using snippet_fifty_words
  by (simp add: main_def save_outputs_fields run_article_site)

text \<open>
  Claim C8.  The rows of the domain summary of a run: no domain appears twice, the
  domains are those of the attempted URLs, one row each; the rows are sorted by
  successes, descending; the rows of equal successes are in the order of the
  dictionary, which is the order of first encounter; each row holds the counters of
  its domain.  The summary is the last write of \<open>main\<close>, and the file holds these rows
  when the write does not raise.
\<close>

theorem domain_summary_rows:
  "(let ds = domain_stats (run_queries env bl mr qs (initial_state fs));
        rows = domain_summary ds;
        hosts = map (netloc env) (attempted_urls env mr qs)
    in distinct (map row_domain rows)
       \<and> set (map row_domain rows) = set hosts
       \<and> length rows = length (first_seen hosts)
       \<and> sorted_wrt (\<lambda>a b. successes b \<le> successes a) rows
       \<and> (\<forall>n. filter (\<lambda>r. successes r = n) rows
                 = map summary_row_of (filter (\<lambda>x. success (snd x) = n) ds))
       \<and> map fst ds = first_seen hosts
       \<and> (\<forall>r \<in> set rows. successes r = success_count ds (row_domain r)
                          \<and> failures r = fail_count ds (row_domain r))
       \<and> last (calls (main env bl qs mr fs)) = WriteCall domain_log
       \<and> (\<not> write_fails env domain_log \<longrightarrow>
             files (main env bl qs mr fs) domain_log = Some (CsvSummary rows)))"
proof -
  let ?ds = "domain_stats (run_queries env bl mr qs (initial_state fs))"
  let ?hosts = "map (netloc env) (attempted_urls env mr qs)"
  have keys: "map fst ?ds = first_seen ?hosts"
    using run_queries_summary [of env bl mr qs fs "[]"] by simp
  then have dist: "distinct (map fst ?ds)"
    by (simp add: distinct_first_seen)
  have 1: "distinct (map row_domain (domain_summary ?ds))"
    using dist by (simp add: row_domain_summary distinct_keys_sorted)
  have "set (map row_domain (domain_summary ?ds)) = set (map fst ?ds)"
    by (simp add: row_domain_summary)
  then have 2: "set (map row_domain (domain_summary ?ds)) = set ?hosts"
    by (simp add: keys set_first_seen)
  have "length (domain_summary ?ds) = length (map fst ?ds)"
    by (simp add: domain_summary_def)
  then have 3: "length (domain_summary ?ds) = length (first_seen ?hosts)"
    by (simp add: keys)
  have 4: "\<forall>r \<in> set (domain_summary ?ds).
             successes r = success_count ?ds (row_domain r)
           \<and> failures r = fail_count ?ds (row_domain r)"
    using domain_summary_counters [OF dist] by blast
  have 5: "last (calls (main env bl qs mr fs)) = WriteCall domain_log"
    by (simp add: main_def save_outputs_calls)
  have 6: "\<not> write_fails env domain_log \<longrightarrow>
             files (main env bl qs mr fs) domain_log = Some (CsvSummary (domain_summary ?ds))"
    by (simp add: main_def save_outputs_summary_file)
  show ?thesis
    unfolding Let_def
    using 1 2 3 4 5 6 keys domain_summary_sorted [of ?ds] domain_summary_stable [of _ ?ds]
    by blast
qed

text \<open>On \<open>two_sites\<close> the host met second has the success and comes first.\<close>

theorem domain_summary_rows_witness:
  "domain_summary (domain_stats (run_queries two_sites {} 10 [''q''] (initial_state Map.empty)))
     = [\<lparr>row_domain = ''b.example'', successes = 1, failures = 0\<rparr>,
        \<lparr>row_domain = ''a.example'', successes = 0, failures = 1\<rparr>]
   \<and> \<not> write_fails two_sites domain_log
   \<and> files (main two_sites {} [''q''] 10 Map.empty) domain_log
       = Some (CsvSummary [\<lparr>row_domain = ''b.example'', successes = 1, failures = 0\<rparr>,
                           \<lparr>row_domain = ''a.example'', successes = 0, failures = 1\<rparr>])"
proof -
  have rows: "domain_summary
       (domain_stats (run_queries two_sites {} 10 [''q''] (initial_state Map.empty)))
     = [\<lparr>row_domain = ''b.example'', successes = 1, failures = 0\<rparr>,
        \<lparr>row_domain = ''a.example'', successes = 0, failures = 1\<rparr>]"
    by (simp add: run_two_sites domain_summary_def summary_row_of_def)
  have w: "\<not> write_fails two_sites domain_log"
    by (simp add: two_sites_def)
  from domain_summary_rows [where env = two_sites and bl = "{}" and mr = 10 and qs = "[''q'']"
      and fs = Map.empty] w
  have "files (main two_sites {} [''q''] 10 Map.empty) domain_log
      = Some (CsvSummary (domain_summary
          (domain_stats (run_queries two_sites {} 10 [''q''] (initial_state Map.empty)))))"
    unfolding Let_def by blast
  with rows w show ?thesis by simp
qed




end
